theory Spec2Isabelle
  imports Main
begin

text \<open>
  A model of \<open>emtail.go\<close>, the driver of emtail: \<open>OneShot\<close>, which reads a log file
  once and sends its lines to the engine; \<open>console.Write\<close>, which keeps the log
  output for the HTTP console; and \<open>main\<close>, which loads the programs of a directory
  and then tails the logs or reads them once. The functions of the Go library that they
  call are modelled from the library's documentation. The compiler, the virtual machine
  and the engine are in other files of the package.
\<close>

section \<open>Go library functions called by emtail.go\<close>

text \<open>
  Go strings are byte sequences; they are modelled as \<open>string\<close> (a list of 8-bit
  characters). The library functions below are not part of the repository: they are
  modelled from the documentation of the Go standard library.
\<close>

text \<open>
  \<open>filepath.Ext\<close>: the suffix beginning at the final dot in the final element of the
  path, empty if there is no dot. The library scans from the last byte towards the
  first and stops at a path separator.
\<close>

fun Ext_scan :: "string \<Rightarrow> string \<Rightarrow> string" where
  "Ext_scan [] acc = []"
| "Ext_scan (c # cs) acc =
     (if c = CHR ''/'' then []
      else if c = CHR ''.'' then c # acc
      else Ext_scan cs (c # acc))"

definition Ext :: "string \<Rightarrow> string" where
  "Ext path = Ext_scan (rev path) []"

text \<open>
  \<open>strings.Split(s, sep)\<close> for a one-byte separator: the substrings between the
  separators, so that \<open>n\<close> separators give \<open>n + 1\<close> substrings (the empty string gives
  one empty substring).
\<close>

fun Split :: "string \<Rightarrow> char \<Rightarrow> string list" where
  "Split [] sep = [[]]"
| "Split (c # cs) sep =
     (if c = sep then [] # Split cs sep
      else (case Split cs sep of
              [] \<Rightarrow> [[c]]
            | x # xs \<Rightarrow> (c # x) # xs))"

subsection \<open>Files and buffered readers\<close>

text \<open>
  A reader yields the bytes of its file and then the condition that ends the reading:
  \<open>io.EOF\<close> at the end of a file that was read completely, or another error.
\<close>

datatype io_error = EOF | IOError string

datatype os_file = File (content: string) (ending: io_error)

text \<open>
  \<open>bufio.Reader.ReadString(delim)\<close>: reads until the first occurrence of \<open>delim\<close>
  and returns the string up to and including the delimiter. If it meets an error before
  finding a delimiter, it returns the data read before the error and the error itself.
  A value \<open>None\<close> of the error is Go's \<open>nil\<close>.
\<close>

definition ReadString :: "os_file \<Rightarrow> char \<Rightarrow> (string \<times> io_error option) \<times> os_file" where
  "ReadString r delim =
     (if delim \<in> set (content r)
      then ((takeWhile (\<lambda>c. c \<noteq> delim) (content r) @ [delim], None),
            File (tl (dropWhile (\<lambda>c. c \<noteq> delim) (content r))) (ending r))
      else ((content r, Some (ending r)), File [] (ending r)))"

text \<open>
  What \<open>main\<close> gets from outside this file: \<open>ioutil.ReadDir\<close> lists a directory
  and \<open>os.Open\<close> opens a file, and both may fail with an error message (\<open>Inl\<close>);
  \<open>NewTailer\<close> may return \<open>nil\<close>; \<open>json.MarshalIndent\<close> of the metrics may return
  an error (\<open>None\<close> for \<open>nil\<close>).
\<close>

record file_info =
  Name :: string
  IsDir :: bool

record world =
  ReadDir :: "string \<Rightarrow> string + file_info list"
  Open :: "string \<Rightarrow> string + os_file"
  NewTailer_ok :: bool
  MarshalIndent_error :: "string option"

section \<open>OneShot\<close>

text \<open>The two errors \<open>OneShot\<close> builds with \<open>fmt.Errorf\<close>: log file and cause.\<close>

datatype oneshot_error =
    FailedToOpen string string
  | FailedToRead string string

abbreviation newline :: char where
  "newline \<equiv> CHR 0x0A"

lemma ReadString_shrinks:
  assumes "ReadString r delim = ((line, None), r')"
  shows "length (content r') < length (content r)"
proof -
  have mem: "delim \<in> set (content r)"
    using assms by (auto simp: ReadString_def split: if_splits)
  then have r': "content r' = tl (dropWhile (\<lambda>c. c \<noteq> delim) (content r))"
    using assms by (auto simp: ReadString_def)
  have "dropWhile (\<lambda>c. c \<noteq> delim) (content r) \<noteq> []"
    using mem by (simp add: dropWhile_eq_Nil_conv)
  then have "length (tl (dropWhile (\<lambda>c. c \<noteq> delim) (content r)))
             < length (dropWhile (\<lambda>c. c \<noteq> delim) (content r))"
    by (cases "dropWhile (\<lambda>c. c \<noteq> delim) (content r)") auto
  also have "\<dots> \<le> length (content r)"
    by (rule length_dropWhile_le)
  finally show ?thesis
    by (simp add: r')
qed

text \<open>
  The channel \<open>lines\<close> is the sequence of strings sent on it so far, in order: the
  engine's \<open>run\<close> receives them in that order. The loop of \<open>OneShot\<close> returns the
  error (\<open>None\<close> for \<open>nil\<close>) and the channel. Each round reads up to the next
  newline: at \<open>io.EOF\<close> the loop returns \<open>nil\<close>, at another error it returns the
  error, and otherwise it sends the line. It ends because a round that sends a line has
  taken bytes from the reader.
\<close>

function OneShot_loop :: "string \<Rightarrow> os_file \<Rightarrow> string list \<Rightarrow> oneshot_error option \<times> string list" where
  "OneShot_loop logfile r lines =
     (case ReadString r newline of
        ((line, Some EOF), r') \<Rightarrow> (None, lines)
      | ((line, Some (IOError e)), r') \<Rightarrow> (Some (FailedToRead logfile e), lines)
      | ((line, None), r') \<Rightarrow> OneShot_loop logfile r' (lines @ [line]))"
  by pat_completeness auto
termination
  by (relation "measure (\<lambda>(logfile, r, lines). length (content r))")
     (auto dest: ReadString_shrinks sym)

definition OneShot :: "world \<Rightarrow> string \<Rightarrow> string list \<Rightarrow> oneshot_error option \<times> string list" where
  "OneShot w logfile lines =
     (case Open w logfile of
        Inl err \<Rightarrow> (Some (FailedToOpen logfile err), lines)
      | Inr l \<Rightarrow> OneShot_loop logfile l lines)"

section \<open>main\<close>

text \<open>
  The command-line flags. \<open>compile_only\<close> is read by \<open>main\<close> but declared in
  another file of the package; it is a flag like the others.
\<close>

record flags =
  port :: string
  logs :: string
  progs :: string
  one_shot :: bool
  dump_bytecode :: bool
  compile_only :: bool

text \<open>
  What the program-loading loop does besides changing the engine, in order: the calls of
  \<open>os.Open\<close> and \<open>Compile\<close>, the lines it logs and the bytecode dumps it prints.
\<close>

datatype log_msg =
    FailedToReadProgram string string
  | CompileError string
  | LoadedProgram string

datatype 'vm event =
    OpenCall string
  | CompileCall string
  | Log log_msg
  | DumpBytecode string 'vm

text \<open>
  Modelled from the spec: the engine and \<open>engine.addVm\<close> (the engine's source is
  missing). \<open>addVm\<close> registers a compiled program, and the engine keeps the programs
  in the order of the calls: the engine is the list of the virtual machines added to it.

  \<open>Compile\<close> (its source is missing) is a parameter of the loop: from the name and the
  opened file it returns a virtual machine and a list of errors, \<open>None\<close> for Go's
  \<open>nil\<close>. The state of the loop is the engine, the variable \<open>errors\<close> and what the
  loop has done so far.
\<close>

record 'vm loader =
  engine :: "'vm list"
  errors :: int
  trace :: "'vm event list"

type_synonym 'vm compiler = "string \<Rightarrow> os_file \<Rightarrow> 'vm \<times> string list option"

text \<open>One iteration of the loop over the directory entries (\<open>continue\<close> returns the state).\<close>

definition load_entry :: "flags \<Rightarrow> world \<Rightarrow> 'vm compiler \<Rightarrow> 'vm loader \<Rightarrow> file_info \<Rightarrow> 'vm loader" where
  "load_entry fl w Compile st fi =
     (if IsDir fi then st
      else if Ext (Name fi) \<noteq> ''.em'' then st
      else
        (case Open w (progs fl @ ''/'' @ Name fi) of
           Inl err \<Rightarrow>
             st\<lparr>trace := trace st @
                  [OpenCall (progs fl @ ''/'' @ Name fi), Log (FailedToReadProgram (Name fi) err)]\<rparr>
         | Inr f \<Rightarrow>
             (case Compile (Name fi) f of
                (v, Some errs) \<Rightarrow>
                  st\<lparr>errors := 1,
                     trace := trace st @
                       [OpenCall (progs fl @ ''/'' @ Name fi), CompileCall (Name fi)] @
                       map (\<lambda>e. Log (CompileError e)) errs\<rparr>
              | (v, None) \<Rightarrow>
                  st\<lparr>engine := engine st @ [v],
                     trace := trace st @
                       [OpenCall (progs fl @ ''/'' @ Name fi), CompileCall (Name fi)] @
                       (if dump_bytecode fl then [DumpBytecode (Name fi) v] else []) @
                       [Log (LoadedProgram (Name fi))]\<rparr>)))"

fun load_programs :: "flags \<Rightarrow> world \<Rightarrow> 'vm compiler \<Rightarrow> file_info list \<Rightarrow> 'vm loader \<Rightarrow> 'vm loader" where
  "load_programs fl w Compile [] st = st"
| "load_programs fl w Compile (fi # fis) st =
     load_programs fl w Compile fis (load_entry fl w Compile st fi)"

text \<open>The loop of \<open>main\<close> over the log files in one-shot mode: it stops at the first error.\<close>

fun OneShot_all :: "world \<Rightarrow> string list \<Rightarrow> string list \<Rightarrow> (string \<times> oneshot_error) option \<times> string list" where
  "OneShot_all w [] lines = (None, lines)"
| "OneShot_all w (pathname # pathnames) lines =
     (case OneShot w pathname lines of
        (Some err, lines') \<Rightarrow> (Some (pathname, err), lines')
      | (None, lines') \<Rightarrow> OneShot_all w pathnames lines')"

text \<open>
  How \<open>main\<close> ends. \<open>log.Fatal\<close> and \<open>log.Fatalf\<close> print the message and call
  \<open>os.Exit(1)\<close>. In one-shot mode \<open>main\<close> marshals the metrics when the loop over the
  log files is over, writes them and returns: \<open>Snapshot\<close> holds the engine and the lines
  that were sent to it before. Otherwise it starts the tailer on the path names and
  serves HTTP: \<open>Tailing\<close> holds the engine and the path names.
\<close>

datatype fatal =
    NoProgramDirectory
  | NoLogsSpecified
  | FailedToListPrograms string string
  | NoLogsToTail
  | FailedOneShot string oneshot_error
  | FailedToMarshal string
  | NoTailer

datatype 'vm outcome =
    Fatal fatal
  | Exit int
  | Snapshot "'vm list" "string list"
  | Tailing "'vm list" "string list"

fun exit_status :: "'vm outcome \<Rightarrow> int option" where
  "exit_status (Fatal m) = Some 1"
| "exit_status (Exit n) = Some n"
| "exit_status (Snapshot e ls) = Some 0"
| "exit_status (Tailing e ps) = None"

text \<open>\<open>StartEmtail\<close> ends the process when there is no tailer (\<open>Some\<close>), or tails every path name.\<close>

definition StartEmtail :: "world \<Rightarrow> string list \<Rightarrow> fatal option" where
  "StartEmtail w pathnames = (if NewTailer_ok w then None else Some NoTailer)"

definition main :: "flags \<Rightarrow> world \<Rightarrow> 'vm compiler \<Rightarrow> 'vm event list \<times> 'vm outcome" where
  "main fl w Compile =
     (if progs fl = [] then ([], Fatal NoProgramDirectory)
      else if logs fl = [] then ([], Fatal NoLogsSpecified)
      else
        (case ReadDir w (progs fl) of
           Inl err \<Rightarrow> ([], Fatal (FailedToListPrograms (progs fl) err))
         | Inr fis \<Rightarrow>
             (let st = load_programs fl w Compile fis \<lparr>engine = [], errors = 0, trace = []\<rparr>
              in if compile_only fl \<or> dump_bytecode fl then (trace st, Exit (errors st))
                 else
                   (let pathnames = filter (\<lambda>pathname. pathname \<noteq> []) (Split (logs fl) CHR '','')
                    in if length pathnames = 0 then (trace st, Fatal NoLogsToTail)
                       else if one_shot fl then
                         (case OneShot_all w pathnames [] of
                            (Some (pathname, err), ls) \<Rightarrow>
                              (trace st, Fatal (FailedOneShot pathname err))
                          | (None, ls) \<Rightarrow>
                              (case MarshalIndent_error w of
                                 Some err \<Rightarrow> (trace st, Fatal (FailedToMarshal err))
                               | None \<Rightarrow> (trace st, Snapshot (engine st) ls)))
                       else
                         (case StartEmtail w pathnames of
                            Some m \<Rightarrow> (trace st, Fatal m)
                          | None \<Rightarrow> (trace st, Tailing (engine st) pathnames))))))"

section \<open>console\<close>

text \<open>
  \<open>utf8.DecodeRune\<close> and the conversion \<open>string(r)\<close> of a rune, from the Go library.
  A rune is a code point, here a natural number; a byte is a character, read as a number
  by \<open>of_char\<close>. \<open>DecodeRune\<close> returns the rune and its width in bytes: \<open>(RuneError, 0)\<close>
  for no bytes and \<open>(RuneError, 1)\<close> for an encoding that is not valid. \<open>first\<close> gives,
  for the first byte of an encoding of several bytes, the width and the range the second
  byte must lie in. A mask is written as a remainder and a shift as a multiplication.
\<close>

definition RuneError :: nat where
  "RuneError = 0xFFFD"

definition first :: "nat \<Rightarrow> (nat \<times> nat \<times> nat) option" where
  "first p0 =
     (if 0xC2 \<le> p0 \<and> p0 \<le> 0xDF then Some (2, 0x80, 0xBF)
      else if p0 = 0xE0 then Some (3, 0xA0, 0xBF)
      else if 0xE1 \<le> p0 \<and> p0 \<le> 0xEC then Some (3, 0x80, 0xBF)
      else if p0 = 0xED then Some (3, 0x80, 0x9F)
      else if 0xEE \<le> p0 \<and> p0 \<le> 0xEF then Some (3, 0x80, 0xBF)
      else if p0 = 0xF0 then Some (4, 0x90, 0xBF)
      else if 0xF1 \<le> p0 \<and> p0 \<le> 0xF3 then Some (4, 0x80, 0xBF)
      else if p0 = 0xF4 then Some (4, 0x80, 0x8F)
      else None)"

definition DecodeRune :: "string \<Rightarrow> nat \<times> nat" where
  "DecodeRune p =
     (if length p < 1 then (RuneError, 0)
      else
        (let p0 = of_char (p ! 0) in
         if p0 < 0x80 then (p0, 1)
         else
           (case first p0 of
              None \<Rightarrow> (RuneError, 1)
            | Some (sz, lo, hi) \<Rightarrow>
                if length p < sz then (RuneError, 1)
                else
                  (let b1 = of_char (p ! 1) in
                   if b1 < lo \<or> hi < b1 then (RuneError, 1)
                   else if sz \<le> 2 then ((p0 mod 32) * 64 + b1 mod 64, 2)
                   else
                     (let b2 = of_char (p ! 2) in
                      if b2 < 0x80 \<or> 0xBF < b2 then (RuneError, 1)
                      else if sz \<le> 3 then
                        ((p0 mod 16) * 4096 + (b1 mod 64) * 64 + b2 mod 64, 3)
                      else
                        (let b3 = of_char (p ! 3) in
                         if b3 < 0x80 \<or> 0xBF < b3 then (RuneError, 1)
                         else ((p0 mod 8) * 262144 + (b1 mod 64) * 4096 + (b2 mod 64) * 64
                                 + b3 mod 64, 4)))))))"

text \<open>
  \<open>string(r)\<close>: the UTF-8 encoding of the rune; a surrogate or a value beyond
  \<open>0x10FFFF\<close> gives the encoding of \<open>RuneError\<close>.
\<close>

definition EncodeRune :: "nat \<Rightarrow> string" where
  "EncodeRune r =
     (if r \<le> 0x7F then [char_of r]
      else if r \<le> 0x7FF then [char_of (0xC0 + r div 64), char_of (0x80 + r mod 64)]
      else if r > 0x10FFFF \<or> (0xD800 \<le> r \<and> r \<le> 0xDFFF) then [CHR 0xEF, CHR 0xBF, CHR 0xBD]
      else if r \<le> 0xFFFF then
        [char_of (0xE0 + r div 4096), char_of (0x80 + (r div 64) mod 64),
         char_of (0x80 + r mod 64)]
      else
        [char_of (0xF0 + r div 262144), char_of (0x80 + (r div 4096) mod 64),
         char_of (0x80 + (r div 64) mod 64), char_of (0x80 + r mod 64)])"

lemma DecodeRune_width: "p \<noteq> [] \<Longrightarrow> 1 \<le> snd (DecodeRune p)"
  by (auto simp: DecodeRune_def Let_def split: option.splits)

lemma Write_loop_progress:
  assumes "i < length p" and "(r, width) = DecodeRune (drop i p)"
  shows "length p - (i + width) < length p - i"
proof -
  have "drop i p \<noteq> []"
    using assms(1) by simp
  then have "1 \<le> snd (DecodeRune (drop i p))"
    by (rule DecodeRune_width)
  then have "1 \<le> width"
    using assms(2) by (metis snd_conv)
  then show ?thesis
    using assms(1) by simp
qed

text \<open>
  The loop of \<open>console.Write\<close>: \<open>i\<close> is the index into \<open>p\<close>, \<open>s\<close> the string built so
  far; each round decodes the rune at \<open>p[i:]\<close>, appends \<open>string(r)\<close> and advances by the
  width.
\<close>

function Write_loop :: "string \<Rightarrow> nat \<Rightarrow> string \<Rightarrow> string" where
  "Write_loop p i s =
     (if i < length p
      then (case DecodeRune (drop i p) of
              (r, width) \<Rightarrow> Write_loop p (i + width) (s @ EncodeRune r))
      else s)"
  by pat_completeness auto
termination
  by (relation "measure (\<lambda>(p, i, s). length p - i)") (auto intro: Write_loop_progress)

record console =
  lines :: "string list"

text \<open>\<open>Write\<close> returns \<open>(n, err)\<close>, with \<open>None\<close> for a \<open>nil\<close> error, and the console.\<close>

definition Write :: "console \<Rightarrow> string \<Rightarrow> (nat \<times> string option) \<times> console" where
  "Write c p =
     (let s = Write_loop p 0 []
      in ((length s, None), c\<lparr>lines := lines c @ [s]\<rparr>))"

section \<open>Notions the properties are stated with\<close>

text \<open>The paths that the loop passed to \<open>os.Open\<close> and the names it passed to \<open>Compile\<close>.\<close>

definition opened :: "'vm event list \<Rightarrow> string list" where
  "opened tr = concat (map (\<lambda>e. case e of OpenCall p \<Rightarrow> [p] | _ \<Rightarrow> []) tr)"

definition compiled :: "'vm event list \<Rightarrow> string list" where
  "compiled tr = concat (map (\<lambda>e. case e of CompileCall n \<Rightarrow> [n] | _ \<Rightarrow> []) tr)"

text \<open>
  A directory entry fails to compile when the loop compiles it and \<open>Compile\<close> returns
  errors; it compiles successfully when \<open>Compile\<close> returns none.
\<close>

definition compile_fails :: "flags \<Rightarrow> world \<Rightarrow> 'vm compiler \<Rightarrow> file_info \<Rightarrow> bool" where
  "compile_fails fl w Compile fi =
     (\<not> IsDir fi \<and> Ext (Name fi) = ''.em'' \<and>
      (case Open w (progs fl @ ''/'' @ Name fi) of
         Inl err \<Rightarrow> False
       | Inr f \<Rightarrow> snd (Compile (Name fi) f) \<noteq> None))"

definition compile_succeeds :: "flags \<Rightarrow> world \<Rightarrow> 'vm compiler \<Rightarrow> file_info \<Rightarrow> bool" where
  "compile_succeeds fl w Compile fi =
     (\<not> IsDir fi \<and> Ext (Name fi) = ''.em'' \<and>
      (case Open w (progs fl @ ''/'' @ Name fi) of
         Inl err \<Rightarrow> False
       | Inr f \<Rightarrow> snd (Compile (Name fi) f) = None))"

text \<open>A log file fails when it cannot be opened or its reading ends with an error.\<close>

definition log_fails :: "world \<Rightarrow> string \<Rightarrow> bool" where
  "log_fails w pathname =
     (case Open w pathname of Inl err \<Rightarrow> True | Inr l \<Rightarrow> ending l \<noteq> EOF)"

text \<open>
  The rune-by-rune decoding of a byte sequence, as a list of runes, and the string of a
  list of runes.
\<close>

function decode_runes :: "string \<Rightarrow> nat list" where
  "decode_runes p =
     (if p = [] then []
      else (case DecodeRune p of (r, width) \<Rightarrow> r # decode_runes (drop width p)))"
  by pat_completeness auto
termination
  by (relation "measure length") (use Write_loop_progress [of 0] in auto)

definition string_of_runes :: "nat list \<Rightarrow> string" where
  "string_of_runes rs = concat (map EncodeRune rs)"

text \<open>
  Valid UTF-8, by the grammar of RFC 3629: a sequence of characters of one byte
  (\<open>00-7F\<close>), two bytes (\<open>C2-DF\<close> and a tail byte \<open>80-BF\<close>), three bytes (\<open>E0\<close> and
  \<open>A0-BF\<close>, \<open>ED\<close> and \<open>80-9F\<close>, or another of \<open>E1-EF\<close> and a tail byte; then a
  tail byte) or four bytes (\<open>F0\<close> and \<open>90-BF\<close>, \<open>F4\<close> and \<open>80-8F\<close>, or one of
  \<open>F1-F3\<close> and a tail byte; then two tail bytes).
\<close>

definition in_range :: "nat \<Rightarrow> nat \<Rightarrow> char \<Rightarrow> bool" where
  "in_range lo hi b = (lo \<le> of_char b \<and> (of_char b :: nat) \<le> hi)"

definition tail_byte :: "char \<Rightarrow> bool" where
  "tail_byte b = in_range 0x80 0xBF b"

fun Valid :: "string \<Rightarrow> bool" where
  "Valid [] = True"
| "Valid (b0 # bs) =
     (if (of_char b0 :: nat) \<le> 0x7F then Valid bs
      else if in_range 0xC2 0xDF b0 then
        (case bs of b1 # rest \<Rightarrow> tail_byte b1 \<and> Valid rest | _ \<Rightarrow> False)
      else if in_range 0xE0 0xEF b0 then
        (case bs of
           b1 # b2 # rest \<Rightarrow>
             (if (of_char b0 :: nat) = 0xE0 then in_range 0xA0 0xBF b1
              else if (of_char b0 :: nat) = 0xED then in_range 0x80 0x9F b1
              else tail_byte b1) \<and> tail_byte b2 \<and> Valid rest
         | _ \<Rightarrow> False)
      else if in_range 0xF0 0xF4 b0 then
        (case bs of
           b1 # b2 # b3 # rest \<Rightarrow>
             (if (of_char b0 :: nat) = 0xF0 then in_range 0x90 0xBF b1
              else if (of_char b0 :: nat) = 0xF4 then in_range 0x80 0x8F b1
              else tail_byte b1) \<and> tail_byte b2 \<and> tail_byte b3 \<and> Valid rest
         | _ \<Rightarrow> False)
      else False)"

section \<open>The compiler, the virtual machine and the engine\<close>

text \<open>
  The sources of \<open>Compile\<close>, of the virtual machine and of the engine's \<open>run\<close> are
  missing: \<open>emtail.go\<close> only calls them, and reads the fields \<open>name\<close>, \<open>re\<close> and
  \<open>prog\<close> of a virtual machine, \<open>op\<close> and \<open>opnd\<close> of an instruction and \<open>Program\<close>
  of a metric. This section models them from the specification, for programs that declare
  metrics and increment them in pattern clauses. The opcodes for loading and storing a
  metric value and for setting a gauge are left out: the specification gives the first
  two no semantics and does not say what the third does to a metric that is not a gauge.
\<close>

text \<open>
  Modelled from the spec: the Metric (its declaration is missing). It is identified by
  program name and metric name, has a kind and an ordered set of label dimensions, and
  maps label-value tuples to a current numeric value; a tuple without a value reads 0.
  A value on the stack of the virtual machine is a number or a string.
\<close>

datatype kind = Counter | Gauge

datatype val = Number int | Text string

record metric =
  Program :: string
  metric_name :: string
  Kind :: kind
  Keys :: "string list"
  Values :: "val list \<rightharpoonup> int"

definition value_of :: "metric \<Rightarrow> val list \<Rightarrow> int" where
  "value_of m labels = (case Values m labels of None \<Rightarrow> 0 | Some n \<Rightarrow> n)"

text \<open>
  Modelled from the spec: the Instruction and the Program (the declarations of the
  virtual machine are missing). An instruction is an opcode with one integer operand; a
  compiled program is a name, a sequence of instructions and a table of compiled regular
  expressions. A regular expression is run by the regexp library: \<open>rematch\<close> gives the
  capture groups of a match, or \<open>None\<close>.
\<close>

datatype opcode = Match | JumpIfNoMatch | IncrementMetric | Return | PushLiteral | PushCapture

datatype instr = Instr (op: opcode) (opnd: int)

record 're vm =
  name :: string
  prog :: "instr list"
  re :: "'re list"

type_synonym 're matcher = "'re \<Rightarrow> string \<Rightarrow> string list option"

text \<open>
  Modelled from the spec: the Execution Context of one program on one line (missing with
  the virtual machine): the instruction pointer, whether the last match succeeded, the
  capture registers and the value stack.
\<close>

record thread =
  pc :: nat
  matched :: bool
  matches :: "string list"
  stack :: "val list"

datatype runtime_error = RuntimeMatchError | RuntimeInternalError

text \<open>A capture of digits only is pushed as a number.\<close>

definition digits_only :: "string \<Rightarrow> bool" where
  "digits_only s =
     (s \<noteq> [] \<and> list_all (\<lambda>c. 48 \<le> (of_char c :: nat) \<and> (of_char c :: nat) \<le> 57) s)"

definition number_of :: "string \<Rightarrow> int" where
  "number_of s = foldl (\<lambda>n c. 10 * n + (of_char c - 48)) 0 s"

text \<open>
  Modelled from the spec: the increment of the Metric Store (missing). It adds the delta
  to the value of the label tuple; a result that is a decrease of a counter is a runtime
  error and leaves the store as it is.
\<close>

definition increment :: "metric list \<Rightarrow> nat \<Rightarrow> val list \<Rightarrow> int \<Rightarrow> runtime_error + metric list" where
  "increment ms i labels delta =
     (let m = ms ! i; old = value_of m labels; new = old + delta
      in if Kind m = Counter \<and> new < old then Inl RuntimeMatchError
         else Inr (ms[i := m\<lparr>Values := (Values m)(labels \<mapsto> new)\<rparr>]))"

text \<open>
  Modelled from the spec: the instructions of the virtual machine (missing), one by one.
  A match runs the regular expression of its operand against the line, sets the capture
  registers on success and falls through; the jump that follows it goes to its operand
  when the match failed. A push puts a literal or a capture on the stack. An increment
  pops as many label values as the metric has label dimensions and, if the stack holds
  one more value, the delta, which is 1 otherwise. A return ends the program. An operand
  that is out of range is an internal error. The result is the error, or the next
  execution context (\<open>None\<close> after a return) and the store.
\<close>

definition exec_instr ::
  "'re matcher \<Rightarrow> 're vm \<Rightarrow> string \<Rightarrow> instr \<Rightarrow> thread \<Rightarrow> metric list
     \<Rightarrow> runtime_error + (thread option \<times> metric list)" where
  "exec_instr rematch v line i t ms =
     (case op i of
        Match \<Rightarrow>
          (if opnd i < 0 \<or> length (re v) \<le> nat (opnd i) then Inl RuntimeInternalError
           else (case rematch (re v ! nat (opnd i)) line of
                   Some groups \<Rightarrow>
                     Inr (Some (t\<lparr>pc := pc t + 1, matched := True, matches := groups\<rparr>), ms)
                 | None \<Rightarrow> Inr (Some (t\<lparr>pc := pc t + 1, matched := False\<rparr>), ms)))
      | JumpIfNoMatch \<Rightarrow>
          (if matched t then Inr (Some (t\<lparr>pc := pc t + 1\<rparr>), ms)
           else if opnd i < 0 \<or> length (prog v) < nat (opnd i) then Inl RuntimeInternalError
           else Inr (Some (t\<lparr>pc := nat (opnd i)\<rparr>), ms))
      | PushLiteral \<Rightarrow>
          Inr (Some (t\<lparr>pc := pc t + 1, stack := Number (opnd i) # stack t\<rparr>), ms)
      | PushCapture \<Rightarrow>
          (if opnd i < 0 \<or> length (matches t) \<le> nat (opnd i) then Inl RuntimeMatchError
           else (let s = matches t ! nat (opnd i)
                 in Inr (Some (t\<lparr>pc := pc t + 1,
                                 stack := (if digits_only s then Number (number_of s) else Text s)
                                            # stack t\<rparr>), ms)))
      | IncrementMetric \<Rightarrow>
          (if opnd i < 0 \<or> length ms \<le> nat (opnd i) then Inl RuntimeInternalError
           else (let arity = length (Keys (ms ! nat (opnd i)))
                 in if length (stack t) < arity then Inl RuntimeMatchError
                    else (let labels = rev (take arity (stack t))
                          in (case drop arity (stack t) of
                                [] \<Rightarrow>
                                  (case increment ms (nat (opnd i)) labels 1 of
                                     Inl err \<Rightarrow> Inl err
                                   | Inr ms' \<Rightarrow>
                                       Inr (Some (t\<lparr>pc := pc t + 1, stack := []\<rparr>), ms'))
                              | Number delta # rest \<Rightarrow>
                                  (case increment ms (nat (opnd i)) labels delta of
                                     Inl err \<Rightarrow> Inl err
                                   | Inr ms' \<Rightarrow>
                                       Inr (Some (t\<lparr>pc := pc t + 1, stack := rest\<rparr>), ms'))
                              | Text s # rest \<Rightarrow> Inl RuntimeMatchError))))
      | Return \<Rightarrow> Inr (None, ms))"

text \<open>
  Modelled from the spec: \<open>execute\<close> of the virtual machine (missing), the
  fetch-decode-execute loop over the instruction pointer. It ends at a return, at the
  end of the instructions or at an error, with the error or whether the last match
  succeeded, and the store. The loop need not end for every instruction sequence: the
  value \<open>None\<close> is a run that does not return.
\<close>

partial_function (option) run_thread ::
  "'re matcher \<Rightarrow> 're vm \<Rightarrow> string \<Rightarrow> thread \<Rightarrow> metric list
     \<Rightarrow> ((runtime_error + bool) \<times> metric list) option" where
  "run_thread rematch v line t ms =
     (if length (prog v) \<le> pc t then Some (Inr (matched t), ms)
      else (case exec_instr rematch v line (prog v ! pc t) t ms of
              Inl err \<Rightarrow> Some (Inl err, ms)
            | Inr (None, ms') \<Rightarrow> Some (Inr (matched t), ms')
            | Inr (Some t', ms') \<Rightarrow> run_thread rematch v line t' ms'))"

definition execute ::
  "'re matcher \<Rightarrow> 're vm \<Rightarrow> string \<Rightarrow> metric list
     \<Rightarrow> ((runtime_error + bool) \<times> metric list) option" where
  "execute rematch v line ms =
     run_thread rematch v line \<lparr>pc = 0, matched = False, matches = [], stack = []\<rparr> ms"

text \<open>
  Modelled from the spec: \<open>run\<close> of the engine (missing). For each line, in the order
  received, it executes every registered program, in the order of registration; an error
  of one program does not stop the others, and an internal error disables the program
  (the flag beside it) for the rest of the run.
\<close>

fun run_line ::
  "'re matcher \<Rightarrow> ('re vm \<times> bool) list \<Rightarrow> string \<Rightarrow> metric list
     \<Rightarrow> (('re vm \<times> bool) list \<times> metric list) option" where
  "run_line rematch [] line ms = Some ([], ms)"
| "run_line rematch ((v, disabled) # vs) line ms =
     (if disabled then
        (case run_line rematch vs line ms of
           None \<Rightarrow> None
         | Some (vs', ms') \<Rightarrow> Some ((v, True) # vs', ms'))
      else
        (case execute rematch v line ms of
           None \<Rightarrow> None
         | Some (res, ms') \<Rightarrow>
             (case run_line rematch vs line ms' of
                None \<Rightarrow> None
              | Some (vs', ms'') \<Rightarrow> Some ((v, res = Inl RuntimeInternalError) # vs', ms''))))"

fun run ::
  "'re matcher \<Rightarrow> ('re vm \<times> bool) list \<Rightarrow> string list \<Rightarrow> metric list
     \<Rightarrow> (('re vm \<times> bool) list \<times> metric list) option" where
  "run rematch vs [] ms = Some (vs, ms)"
| "run rematch vs (line # rest) ms =
     (case run_line rematch vs line ms of
        None \<Rightarrow> None
      | Some (vs', ms') \<Rightarrow> run rematch vs' rest ms')"

text \<open>
  Modelled from the spec: the syntax tree of a program source (the parser is missing, and
  the specification gives no concrete syntax): metric declarations with kind, name and
  label list, and pattern clauses, each a regular expression literal guarding a block of
  statements. A statement increments a metric, with expressions for the label values
  and an optional delta; an expression is a literal or a capture group.
\<close>

datatype expr = Lit int | Cap nat

datatype stmt = Increment string "expr list" "expr option"

record ast =
  decls :: "(kind \<times> string \<times> string list) list"
  clauses :: "(string \<times> stmt list) list"

datatype compile_error = DuplicateMetric string | UndeclaredMetric string | InvalidRegex string

fun metric_index :: "metric list \<Rightarrow> string \<Rightarrow> string \<Rightarrow> nat option" where
  "metric_index [] pn n = None"
| "metric_index (m # ms) pn n =
     (if Program m = pn \<and> metric_name m = n then Some 0
      else map_option Suc (metric_index ms pn n))"

fun regex_index :: "(string \<times> 're) list \<Rightarrow> string \<Rightarrow> nat option" where
  "regex_index [] src = None"
| "regex_index ((s, r) # table) src =
     (if s = src then Some 0 else map_option Suc (regex_index table src))"

text \<open>
  Modelled from the spec: the code generation of \<open>Compile\<close> (missing). A regular
  expression literal gets a table index the first time it is met and keeps it; a pattern
  clause becomes a match, a jump past its block taken when the match failed, and the
  instructions of its block; a statement refers to its metric by the index resolved from
  the declarations; a return is appended at the end. An undeclared metric, a duplicate
  declaration and a regular expression that does not compile (\<open>recompile\<close>, from the
  regexp library, gives \<open>None\<close>) are compile errors, and then no program is returned
  and no metric registered. An empty source compiles to no instructions.
\<close>

fun gen_expr :: "expr \<Rightarrow> instr" where
  "gen_expr (Lit n) = Instr PushLiteral n"
| "gen_expr (Cap k) = Instr PushCapture (int k)"

fun gen_stmt :: "metric list \<Rightarrow> string \<Rightarrow> stmt \<Rightarrow> compile_error list \<times> instr list" where
  "gen_stmt ms pn (Increment n labels delta) =
     (case metric_index ms pn n of
        None \<Rightarrow> ([UndeclaredMetric n], [])
      | Some i \<Rightarrow>
          ([], (case delta of None \<Rightarrow> [] | Some e \<Rightarrow> [gen_expr e]) @ map gen_expr labels
               @ [Instr IncrementMetric (int i)]))"

fun gen_block :: "metric list \<Rightarrow> string \<Rightarrow> stmt list \<Rightarrow> compile_error list \<times> instr list" where
  "gen_block ms pn [] = ([], [])"
| "gen_block ms pn (s # ss) =
     (case gen_stmt ms pn s of
        (errs1, code1) \<Rightarrow>
          (case gen_block ms pn ss of
             (errs2, code2) \<Rightarrow> (errs1 @ errs2, code1 @ code2)))"

fun gen_clauses ::
  "(string \<Rightarrow> 're option) \<Rightarrow> metric list \<Rightarrow> string \<Rightarrow> (string \<times> stmt list) list
     \<Rightarrow> compile_error list \<times> instr list \<times> (string \<times> 're) list
     \<Rightarrow> compile_error list \<times> instr list \<times> (string \<times> 're) list" where
  "gen_clauses recompile ms pn [] acc = acc"
| "gen_clauses recompile ms pn ((src, body) # cs) (errs, code, table) =
     (case (case regex_index table src of
              Some i \<Rightarrow> ([], table, i)
            | None \<Rightarrow>
                (case recompile src of
                   None \<Rightarrow> ([InvalidRegex src], table, 0)
                 | Some r \<Rightarrow> ([], table @ [(src, r)], length table))) of
        (errs1, table1, idx) \<Rightarrow>
          (case gen_block ms pn body of
             (errs2, body_code) \<Rightarrow>
               gen_clauses recompile ms pn cs
                 (errs @ errs1 @ errs2,
                  code @ [Instr Match (int idx),
                          Instr JumpIfNoMatch (int (length code + 2 + length body_code))]
                       @ body_code,
                  table1)))"

definition compile ::
  "(string \<Rightarrow> 're option) \<Rightarrow> string \<Rightarrow> ast \<Rightarrow> metric list
     \<Rightarrow> compile_error list + ('re vm \<times> metric list)" where
  "compile recompile pn a ms =
     (let names = map (\<lambda>(k, n, keys). n) (decls a);
          dups = map DuplicateMetric (remdups (filter (\<lambda>n. 1 < count_list names n) names));
          ms' = ms @ map (\<lambda>(k, n, keys).
                  \<lparr>Program = pn, metric_name = n, Kind = k, Keys = keys, Values = Map.empty\<rparr>)
                  (decls a)
      in (case gen_clauses recompile ms' pn (clauses a) ([], [], []) of
            (errs, code, table) \<Rightarrow>
              if dups @ errs \<noteq> [] then Inl (dups @ errs)
              else Inr (\<lparr>name = pn,
                         prog = (if decls a = [] \<and> clauses a = [] then []
                                 else code @ [Instr Return 0]),
                         re = map snd table\<rparr>, ms')))"

text \<open>
  A process that loads one program into an empty metric store and runs the engine over
  the lines: the store at the end, or \<open>None\<close> when the program does not compile or the
  run does not return. The stored value of a metric is found by program and name.
\<close>

definition run_program ::
  "'re matcher \<Rightarrow> (string \<Rightarrow> 're option) \<Rightarrow> string \<Rightarrow> ast \<Rightarrow> string list
     \<Rightarrow> metric list option" where
  "run_program rematch recompile pn a ls =
     (case compile recompile pn a [] of
        Inl errs \<Rightarrow> None
      | Inr (v, ms) \<Rightarrow>
          (case run rematch [(v, False)] ls ms of
             None \<Rightarrow> None
           | Some (vs, ms') \<Rightarrow> Some ms'))"

definition stored_value :: "metric list \<Rightarrow> string \<Rightarrow> string \<Rightarrow> val list \<Rightarrow> int option" where
  "stored_value ms pn n labels =
     (case metric_index ms pn n of None \<Rightarrow> None | Some i \<Rightarrow> Some (value_of (ms ! i) labels))"

text \<open>The stored value of a metric without labels at the end of such a process.\<close>

definition final_value ::
  "'re matcher \<Rightarrow> (string \<Rightarrow> 're option) \<Rightarrow> string \<Rightarrow> ast \<Rightarrow> string list \<Rightarrow> string
     \<Rightarrow> int option" where
  "final_value rematch recompile pn a ls n =
     (case run_program rematch recompile pn a ls of
        None \<Rightarrow> None
      | Some ms \<Rightarrow> stored_value ms pn n [])"

section \<open>Example inputs\<close>

text \<open>
  A program directory with a program that compiles, one that does not, a file that is
  not a program, a directory and a program that cannot be opened; and three log files:
  two complete lines, a last line without its newline, and a read error.
\<close>

definition example_entries :: "file_info list" where
  "example_entries =
     [\<lparr>Name = ''bad.em'', IsDir = False\<rparr>,
      \<lparr>Name = ''good.em'', IsDir = False\<rparr>,
      \<lparr>Name = ''locked.em'', IsDir = False\<rparr>,
      \<lparr>Name = ''notes.txt'', IsDir = False\<rparr>,
      \<lparr>Name = ''sub.em'', IsDir = True\<rparr>]"

definition example_world :: world where
  "example_world =
     \<lparr>ReadDir = (\<lambda>d. if d = ''progs''
                     then Inr example_entries
                     else if d = ''empty'' then Inr []
                     else Inl ''no such directory''),
      Open = (\<lambda>p. if p = ''progs/good.em'' then Inr (File ''ok'' EOF)
                  else if p = ''progs/bad.em'' then Inr (File ''bad'' EOF)
                  else if p = ''a.log'' then Inr (File (''x'' @ [newline] @ ''y'' @ [newline]) EOF)
                  else if p = ''cut.log'' then Inr (File (''a'' @ [newline] @ ''b'') EOF)
                  else if p = ''broken.log'' then Inr (File (''x'' @ [newline]) (IOError ''input/output error''))
                  else Inl ''permission denied''),
      NewTailer_ok = True,
      MarshalIndent_error = None\<rparr>"

definition example_Compile :: "string compiler" where
  "example_Compile n f = (n, if content f = ''bad'' then Some [''syntax error''] else None)"

text \<open>A matcher for examples: an expression matches the line equal to it.\<close>

definition example_match :: "string matcher" where
  "example_match r line = (if r = line then Some [line] else None)"

definition example_flags :: flags where
  "example_flags =
     \<lparr>port = ''3903'', logs = ''a.log'', progs = ''progs'',
      one_shot = False, dump_bytecode = False, compile_only = False\<rparr>"

section \<open>Properties of OneShot\<close>

declare OneShot_loop.simps [simp del]

lemma ReadString_newline:
  "delim \<in> set (content r) \<Longrightarrow>
   ReadString r delim =
     ((takeWhile (\<lambda>c. c \<noteq> delim) (content r) @ [delim], None),
      File (tl (dropWhile (\<lambda>c. c \<noteq> delim) (content r))) (ending r))"
  by (simp add: ReadString_def)

lemma ReadString_end:
  "delim \<notin> set (content r) \<Longrightarrow>
   ReadString r delim = ((content r, Some (ending r)), File [] (ending r))"
  by (simp add: ReadString_def)

lemma OneShot_loop_step:
  assumes "newline \<in> set (content r)"
  shows "OneShot_loop logfile r sent =
         OneShot_loop logfile (File (tl (dropWhile (\<lambda>c. c \<noteq> newline) (content r))) (ending r))
           (sent @ [takeWhile (\<lambda>c. c \<noteq> newline) (content r) @ [newline]])"
  by (subst OneShot_loop.simps) (simp add: ReadString_newline [OF assms])

lemma OneShot_loop_stop:
  assumes "newline \<notin> set (content r)"
  shows "OneShot_loop logfile r sent =
         (case ending r of EOF \<Rightarrow> None | IOError e \<Rightarrow> Some (FailedToRead logfile e), sent)"
  by (subst OneShot_loop.simps) (simp add: ReadString_end [OF assms] split: io_error.split)

text \<open>The loop ends with the condition that ends the file: no error at end-of-file.\<close>

lemma OneShot_loop_error:
  "fst (OneShot_loop logfile r sent) =
     (case ending r of EOF \<Rightarrow> None | IOError e \<Rightarrow> Some (FailedToRead logfile e))"
proof (induction logfile r sent rule: OneShot_loop.induct)
  case (1 logfile r sent)
  show ?case
  proof (cases "newline \<in> set (content r)")
    case True
    from "1.IH" [OF ReadString_newline [OF True, symmetric] refl refl]
    show ?thesis
      by (simp add: OneShot_loop_step [OF True])
  next
    case False
    then show ?thesis
      by (simp add: OneShot_loop_stop)
  qed
qed

lemma split_at_newline:
  assumes "newline \<in> set cs"
  shows "cs = takeWhile (\<lambda>c. c \<noteq> newline) cs @ newline # tl (dropWhile (\<lambda>c. c \<noteq> newline) cs)"
proof -
  have ne: "dropWhile (\<lambda>c. c \<noteq> newline) cs \<noteq> []"
    using assms by (simp add: dropWhile_eq_Nil_conv)
  then have "hd (dropWhile (\<lambda>c. c \<noteq> newline) cs) = newline"
    using hd_dropWhile [of "\<lambda>c. c \<noteq> newline" cs] by simp
  with ne have "dropWhile (\<lambda>c. c \<noteq> newline) cs = newline # tl (dropWhile (\<lambda>c. c \<noteq> newline) cs)"
    by (cases "dropWhile (\<lambda>c. c \<noteq> newline) cs") auto
  then show ?thesis
    using takeWhile_dropWhile_id [of "\<lambda>c. c \<noteq> newline" cs] by simp
qed

text \<open>
  What the loop sends: the channel grows by strings that each end with their only
  newline; together they are the file up to its last newline, and the bytes after the
  last newline are not sent.
\<close>

lemma OneShot_loop_sent:
  "\<exists>new rest. snd (OneShot_loop logfile r sent) = sent @ new
      \<and> list_all (\<lambda>l. l \<noteq> [] \<and> last l = newline \<and> newline \<notin> set (butlast l)) new
      \<and> content r = concat new @ rest \<and> newline \<notin> set rest"
proof (induction logfile r sent rule: OneShot_loop.induct)
  case (1 logfile r sent)
  show ?case
  proof (cases "newline \<in> set (content r)")
    case True
    let ?l = "takeWhile (\<lambda>c. c \<noteq> newline) (content r) @ [newline]"
    let ?r' = "File (tl (dropWhile (\<lambda>c. c \<noteq> newline) (content r))) (ending r)"
    from "1.IH" [OF ReadString_newline [OF True, symmetric] refl refl]
    obtain new rest where IH: "snd (OneShot_loop logfile ?r' (sent @ [?l])) = (sent @ [?l]) @ new"
      "list_all (\<lambda>l. l \<noteq> [] \<and> last l = newline \<and> newline \<notin> set (butlast l)) new"
      "content ?r' = concat new @ rest" "newline \<notin> set rest"
      by blast
    have nl: "newline \<notin> set (takeWhile (\<lambda>c. c \<noteq> newline) (content r))"
      by (auto dest: set_takeWhileD)
    have "snd (OneShot_loop logfile r sent) = sent @ (?l # new)"
      using IH(1) by (simp add: OneShot_loop_step [OF True])
    moreover have "list_all (\<lambda>l. l \<noteq> [] \<and> last l = newline \<and> newline \<notin> set (butlast l)) (?l # new)"
      using IH(2) nl by simp
    moreover have "content r = concat (?l # new) @ rest"
      using split_at_newline [OF True] IH(3) by simp
    ultimately show ?thesis
      using IH(4) by blast
  next
    case False
    then have "snd (OneShot_loop logfile r sent) = sent @ []"
      by (simp add: OneShot_loop_stop)
    moreover have "content r = concat [] @ content r"
      by simp
    moreover have "list_all (\<lambda>l. l \<noteq> [] \<and> last l = newline \<and> newline \<notin> set (butlast l)) []"
      by simp
    ultimately show ?thesis
      using False by blast
  qed
qed

lemma OneShot_sent:
  "\<exists>new. snd (OneShot w logfile sent) = sent @ new
      \<and> list_all (\<lambda>l. l \<noteq> [] \<and> last l = newline \<and> newline \<notin> set (butlast l)) new"
proof (cases "Open w logfile")
  case (Inl err)
  then have "snd (OneShot w logfile sent) = sent @ []"
    by (simp add: OneShot_def)
  moreover have "list_all (\<lambda>l. l \<noteq> [] \<and> last l = newline \<and> newline \<notin> set (butlast l)) []"
    by simp
  ultimately show ?thesis
    by blast
next
  case (Inr l)
  then show ?thesis
    using OneShot_loop_sent [of logfile l sent] by (auto simp: OneShot_def)
qed

lemma OneShot_error: "fst (OneShot w pathname sent) = None \<longleftrightarrow> \<not> log_fails w pathname"
  by (simp add: OneShot_def log_fails_def OneShot_loop_error split: sum.split io_error.split)

lemma OneShot_all_error:
  "fst (OneShot_all w pathnames sent) = None \<longleftrightarrow> \<not> list_ex (log_fails w) pathnames"
proof (induction pathnames arbitrary: sent)
  case Nil
  then show ?case by simp
next
  case (Cons p ps)
  show ?case
  proof (cases "OneShot w p sent")
    case (Pair err sent')
    then have "err = None \<longleftrightarrow> \<not> log_fails w p"
      using OneShot_error [of w p sent] by simp
    then show ?thesis
      using Pair Cons.IH [of sent'] by (cases err) auto
  qed
qed

text \<open>
  Claim C6, as amended. Every string that \<open>OneShot\<close> sends on the channel \<open>lines\<close>
  keeps its newline: the channel keeps what it held, and each string added to it is not
  empty, ends with a newline character and has no other newline in it.
\<close>

theorem OneShot_sends_lines_with_newline:
  "take (length sent) (snd (OneShot w logfile sent)) = sent \<and>
   list_all (\<lambda>l. l \<noteq> [] \<and> last l = newline \<and> newline \<notin> set (butlast l))
     (drop (length sent) (snd (OneShot w logfile sent)))"
proof -
  obtain new where "snd (OneShot w logfile sent) = sent @ new"
    and "list_all (\<lambda>l. l \<noteq> [] \<and> last l = newline \<and> newline \<notin> set (butlast l)) new"
    using OneShot_sent [of w logfile sent] by blast
  then show ?thesis
    by simp
qed

text \<open>
  Claim C6 as stated fails: on the log file \<open>a.log\<close>, whose two lines are \<open>x\<close> and
  \<open>y\<close>, \<open>OneShot\<close> sends both with their trailing newline.
\<close>

theorem OneShot_newline_not_stripped:
  "OneShot example_world ''a.log'' [] = (None, [[CHR ''x'', newline], [CHR ''y'', newline]])"
  by (simp add: OneShot_def example_world_def OneShot_loop_step OneShot_loop_stop)

text \<open>
  Claim C4 at a log file whose last line has no newline: \<open>cut.log\<close> holds the line
  \<open>a\<close> with its newline and then the line \<open>b\<close> without one. \<open>OneShot\<close> returns no
  error and has sent the first line only, and \<open>main\<close> takes the snapshot after that one
  line: the line \<open>b\<close> never reaches the engine.
\<close>

theorem OneShot_drops_unterminated_last_line:
  "OneShot example_world ''cut.log'' [] = (None, [[CHR ''a'', newline]]) \<and>
   snd (main (example_flags\<lparr>logs := ''cut.log'', one_shot := True\<rparr>) example_world example_Compile)
     = Snapshot [''good.em''] [[CHR ''a'', newline]]"
  by (simp add: main_def example_flags_def example_world_def example_entries_def
      example_Compile_def load_entry_def Ext_def OneShot_def OneShot_loop_step OneShot_loop_stop)

section \<open>Properties of the program loader\<close>

lemma load_programs_append:
  "load_programs fl w C (xs @ ys) st = load_programs fl w C ys (load_programs fl w C xs st)"
  by (induction xs arbitrary: st) simp_all

lemma load_entry_engine_cong:
  "engine st = engine st' \<Longrightarrow> engine (load_entry fl w C st fi) = engine (load_entry fl w C st' fi)"
  by (simp add: load_entry_def split: sum.splits option.splits prod.splits)

lemma load_programs_engine_cong:
  "engine st = engine st' \<Longrightarrow>
   engine (load_programs fl w C fis st) = engine (load_programs fl w C fis st')"
proof (induction fis arbitrary: st st')
  case Nil
  then show ?case by simp
next
  case (Cons fi fis)
  show ?case
    using Cons.IH [OF load_entry_engine_cong [OF Cons.prems]] by simp
qed

lemma load_entry_compile_error:
  assumes "\<not> IsDir fi" "Ext (Name fi) = ''.em''"
    and "Open w (progs fl @ ''/'' @ Name fi) = Inr f"
    and "C (Name fi) f = (v, Some errs)"
  shows "engine (load_entry fl w C st fi) = engine st"
  using assms by (simp add: load_entry_def)

lemma load_entry_errors:
  "errors (load_entry fl w C st fi) = (if compile_fails fl w C fi then 1 else errors st)"
  by (simp add: load_entry_def compile_fails_def split: sum.splits option.splits prod.splits)

lemma load_programs_errors:
  "errors (load_programs fl w C fis st) =
     (if list_ex (compile_fails fl w C) fis then 1 else errors st)"
proof (induction fis arbitrary: st)
  case Nil
  then show ?case by simp
next
  case (Cons fi fis)
  show ?case
    by (simp add: Cons.IH load_entry_errors)
qed

lemma load_entry_engine_none:
  "\<not> compile_succeeds fl w C fi \<Longrightarrow> engine (load_entry fl w C st fi) = engine st"
  by (auto simp: load_entry_def compile_succeeds_def split: sum.splits option.splits prod.splits)

lemma load_programs_engine_none:
  "\<not> list_ex (compile_succeeds fl w C) fis \<Longrightarrow> engine (load_programs fl w C fis st) = engine st"
proof (induction fis arbitrary: st)
  case Nil
  then show ?case by simp
next
  case (Cons fi fis)
  then show ?case
    by (simp add: load_entry_engine_none)
qed

lemma load_entry_opened:
  "opened (trace (load_entry fl w C st fi)) =
     opened (trace st) @
     (if \<not> IsDir fi \<and> Ext (Name fi) = ''.em'' then [progs fl @ ''/'' @ Name fi] else [])"
  by (simp add: load_entry_def opened_def split: sum.splits option.splits prod.splits)

lemma load_entry_compiled:
  "compiled (trace (load_entry fl w C st fi)) =
     compiled (trace st) @
     (if \<not> IsDir fi \<and> Ext (Name fi) = ''.em'' \<and> \<not> isl (Open w (progs fl @ ''/'' @ Name fi))
      then [Name fi] else [])"
  by (simp add: load_entry_def compiled_def split: sum.splits option.splits prod.splits)

lemma load_programs_opened:
  "opened (trace (load_programs fl w C fis st)) =
     opened (trace st) @
     map (\<lambda>fi. progs fl @ ''/'' @ Name fi)
       (filter (\<lambda>fi. \<not> IsDir fi \<and> Ext (Name fi) = ''.em'') fis)"
proof (induction fis arbitrary: st)
  case Nil
  then show ?case by simp
next
  case (Cons fi fis)
  show ?case
    by (simp add: Cons.IH load_entry_opened)
qed

lemma load_programs_compiled:
  "compiled (trace (load_programs fl w C fis st)) =
     compiled (trace st) @
     map Name (filter (\<lambda>fi. \<not> IsDir fi \<and> Ext (Name fi) = ''.em'' \<and>
                             \<not> isl (Open w (progs fl @ ''/'' @ Name fi))) fis)"
proof (induction fis arbitrary: st)
  case Nil
  then show ?case by simp
next
  case (Cons fi fis)
  show ?case
    by (simp add: Cons.IH load_entry_compiled)
qed

lemma load_entry_skip:
  "IsDir fi \<or> Ext (Name fi) \<noteq> ''.em'' \<Longrightarrow> load_entry fl w C st fi = st"
  by (auto simp: load_entry_def)

text \<open>
  Claim C3. A program file whose compilation returns errors registers no program with
  the engine, and the loop goes on: whatever entries come before and after it in the
  directory, the engine ends as it would without that file, and every program file
  after it that can be opened is still compiled.
\<close>

theorem compile_error_registers_nothing:
  assumes "\<not> IsDir fi" and "Ext (Name fi) = ''.em''"
    and "Open w (progs fl @ ''/'' @ Name fi) = Inr f"
    and "C (Name fi) f = (v, Some errs)"
  shows "engine (load_programs fl w C (before @ fi # after) st) =
         engine (load_programs fl w C (before @ after) st) \<and>
         compiled (trace (load_programs fl w C (before @ fi # after) st)) =
         compiled (trace (load_programs fl w C before st)) @ Name fi #
         map Name (filter (\<lambda>fi. \<not> IsDir fi \<and> Ext (Name fi) = ''.em'' \<and>
                                 \<not> isl (Open w (progs fl @ ''/'' @ Name fi))) after)"
proof -
  have "engine (load_entry fl w C (load_programs fl w C before st) fi) =
        engine (load_programs fl w C before st)"
    using assms by (rule load_entry_compile_error)
  then have "engine (load_programs fl w C after (load_entry fl w C (load_programs fl w C before st) fi)) =
             engine (load_programs fl w C after (load_programs fl w C before st))"
    by (rule load_programs_engine_cong)
  then have "engine (load_programs fl w C (before @ fi # after) st) =
             engine (load_programs fl w C (before @ after) st)"
    by (simp add: load_programs_append)
  moreover have "compiled (trace (load_programs fl w C (before @ fi # after) st)) =
         compiled (trace (load_programs fl w C before st)) @ Name fi #
         map Name (filter (\<lambda>fi. \<not> IsDir fi \<and> Ext (Name fi) = ''.em'' \<and>
                                 \<not> isl (Open w (progs fl @ ''/'' @ Name fi))) after)"
    using assms(1,2,3)
    by (simp add: load_programs_append load_programs_compiled load_entry_compiled)
  ultimately show ?thesis
    by simp
qed

theorem compile_error_registers_nothing_witness:
  "engine (load_programs example_flags example_world example_Compile example_entries
             \<lparr>engine = [], errors = 0, trace = []\<rparr>) = [''good.em''] \<and>
   compiled (trace (load_programs example_flags example_world example_Compile example_entries
             \<lparr>engine = [], errors = 0, trace = []\<rparr>)) = [''bad.em'', ''good.em'']"
  using compile_error_registers_nothing
    [of "\<lparr>Name = ''bad.em'', IsDir = False\<rparr>" example_world example_flags "File ''bad'' EOF"
        example_Compile "''bad.em''" "[''syntax error'']" "[]"
        "[\<lparr>Name = ''good.em'', IsDir = False\<rparr>,
          \<lparr>Name = ''locked.em'', IsDir = False\<rparr>,
          \<lparr>Name = ''notes.txt'', IsDir = False\<rparr>,
          \<lparr>Name = ''sub.em'', IsDir = True\<rparr>]"
        "\<lparr>engine = [], errors = 0, trace = []\<rparr>"]
  by (simp add: example_flags_def example_world_def example_Compile_def example_entries_def
      load_entry_def Ext_def compiled_def)

text \<open>
  Claim C9, as amended. The loop calls \<open>os.Open\<close> on exactly the directory entries that
  are not directories and whose name has the extension \<open>.em\<close>, in their order, and
  compiles exactly those of them that \<open>os.Open\<close> opens. An entry that is a directory or
  has another extension leaves the state of the loop as it is: it is not opened, not
  compiled and nothing is logged for it.
\<close>

theorem loader_opens_and_compiles_em_files:
  "opened (trace (load_programs fl w C fis st)) =
     opened (trace st) @
     map (\<lambda>fi. progs fl @ ''/'' @ Name fi)
       (filter (\<lambda>fi. \<not> IsDir fi \<and> Ext (Name fi) = ''.em'') fis) \<and>
   compiled (trace (load_programs fl w C fis st)) =
     compiled (trace st) @
     map Name (filter (\<lambda>fi. \<not> IsDir fi \<and> Ext (Name fi) = ''.em'' \<and>
                             \<not> isl (Open w (progs fl @ ''/'' @ Name fi))) fis) \<and>
   (IsDir fi \<or> Ext (Name fi) \<noteq> ''.em'' \<longrightarrow> load_entry fl w C st fi = st)"
  by (simp add: load_programs_opened load_programs_compiled load_entry_skip)

theorem loader_opens_and_compiles_em_files_witness:
  "opened (trace (load_programs example_flags example_world example_Compile example_entries
             \<lparr>engine = [], errors = 0, trace = []\<rparr>))
     = [''progs/bad.em'', ''progs/good.em'', ''progs/locked.em''] \<and>
   compiled (trace (load_programs example_flags example_world example_Compile example_entries
             \<lparr>engine = [], errors = 0, trace = []\<rparr>))
     = [''bad.em'', ''good.em''] \<and>
   load_entry example_flags example_world example_Compile
     \<lparr>engine = [], errors = 0, trace = []\<rparr> \<lparr>Name = ''notes.txt'', IsDir = False\<rparr>
     = \<lparr>engine = [], errors = 0, trace = []\<rparr>"
  using loader_opens_and_compiles_em_files
    [of example_flags example_world example_Compile example_entries
        "\<lparr>engine = [], errors = 0, trace = []\<rparr>" "\<lparr>Name = ''notes.txt'', IsDir = False\<rparr>"]
  by (simp add: example_flags_def example_world_def example_entries_def Ext_def
      opened_def compiled_def)

text \<open>
  Claim C9 as stated fails: \<open>locked.em\<close> is not a directory and has the extension
  \<open>.em\<close>, but \<open>os.Open\<close> fails on it; the loop logs that and does not compile it.
\<close>

theorem unopened_program_is_not_compiled:
  "Ext ''locked.em'' = ''.em'' \<and>
   trace (load_programs example_flags example_world example_Compile
            [\<lparr>Name = ''locked.em'', IsDir = False\<rparr>] \<lparr>engine = [], errors = 0, trace = []\<rparr>)
     = [OpenCall ''progs/locked.em'', Log (FailedToReadProgram ''locked.em'' ''permission denied'')]"
  by (simp add: example_flags_def example_world_def load_entry_def Ext_def)

section \<open>Properties of main\<close>

text \<open>
  Claim C8, as amended. When \<open>compile_only\<close> or \<open>dump_bytecode\<close> is set and \<open>main\<close>
  reaches the loop over the program directory (the flags \<open>progs\<close> and \<open>logs\<close> are not
  empty and the directory can be listed), \<open>main\<close> ends right after the loop with
  \<open>os.Exit(errors)\<close>: status 1 if a program file failed to compile, status 0 otherwise.
  It ends there, so no log is tailed or read.
\<close>

theorem compile_only_exit_status:
  assumes "progs fl \<noteq> []" and "logs fl \<noteq> []" and "ReadDir w (progs fl) = Inr fis"
    and "compile_only fl \<or> dump_bytecode fl"
  shows "snd (main fl w C) = Exit (if list_ex (compile_fails fl w C) fis then 1 else 0)"
  using assms by (simp add: main_def Let_def load_programs_errors)

theorem compile_only_exit_status_witness:
  "snd (main (example_flags\<lparr>compile_only := True\<rparr>) example_world example_Compile) = Exit 1 \<and>
   snd (main (example_flags\<lparr>progs := ''empty'', dump_bytecode := True\<rparr>) example_world
          example_Compile) = Exit 0"
  using compile_only_exit_status
      [of "example_flags\<lparr>compile_only := True\<rparr>" example_world example_entries example_Compile]
    compile_only_exit_status
      [of "example_flags\<lparr>progs := ''empty'', dump_bytecode := True\<rparr>" example_world "[]"
          example_Compile]
  by (simp add: example_flags_def example_world_def example_Compile_def example_entries_def
      compile_fails_def Ext_def)

text \<open>
  Claim C8 as stated fails: with \<open>compile_only\<close> set and the flag \<open>logs\<close> empty,
  \<open>main\<close> ends with \<open>log.Fatalf\<close> before the loop: no program file is opened or
  compiled, so none fails to compile, and the exit status is 1.
\<close>

theorem compile_only_without_logs_is_fatal:
  "main (example_flags\<lparr>logs := [], compile_only := True\<rparr>) example_world example_Compile
     = ([], Fatal NoLogsSpecified) \<and>
   exit_status (snd (main (example_flags\<lparr>logs := [], compile_only := True\<rparr>) example_world
                      example_Compile)) = Some 1"
  by (simp add: main_def example_flags_def)

text \<open>
  Claim C7, as amended. That no program file compiled successfully is not fatal: when
  neither \<open>compile_only\<close> nor \<open>dump_bytecode\<close> is set and the flag \<open>logs\<close> names a log
  file, \<open>main\<close> goes on with an empty engine. In one-shot mode it reads the log files
  and ends as it does with programs; otherwise it starts the tailer on the log files.
\<close>

theorem no_program_is_not_fatal:
  assumes "progs fl \<noteq> []" and "ReadDir w (progs fl) = Inr fis"
    and "\<not> compile_only fl" and "\<not> dump_bytecode fl"
    and "\<not> list_ex (compile_succeeds fl w C) fis"
    and "pathnames = filter (\<lambda>pathname. pathname \<noteq> []) (Split (logs fl) CHR '','')"
    and "pathnames \<noteq> []"
  shows "snd (main fl w C) =
           (if one_shot fl
            then (case OneShot_all w pathnames [] of
                    (Some (pathname, err), ls) \<Rightarrow> Fatal (FailedOneShot pathname err)
                  | (None, ls) \<Rightarrow>
                      (case MarshalIndent_error w of
                         Some err \<Rightarrow> Fatal (FailedToMarshal err)
                       | None \<Rightarrow> Snapshot [] ls))
            else (case StartEmtail w pathnames of
                    Some m \<Rightarrow> Fatal m
                  | None \<Rightarrow> Tailing [] pathnames))"
proof -
  have "logs fl \<noteq> []"
    using assms(6,7) by auto
  moreover have "engine (load_programs fl w C fis \<lparr>engine = [], errors = 0, trace = []\<rparr>) = []"
    using load_programs_engine_none [OF assms(5)] by simp
  ultimately show ?thesis
    using assms by (simp add: main_def Let_def split: prod.split option.split)
qed

theorem no_program_is_not_fatal_witness:
  "snd (main (example_flags\<lparr>logs := ''a.log,,cut.log'', progs := ''empty'', one_shot := True\<rparr>)
          example_world example_Compile)
     = Snapshot [] [[CHR ''x'', newline], [CHR ''y'', newline], [CHR ''a'', newline]]"
  using no_program_is_not_fatal
    [of "example_flags\<lparr>logs := ''a.log,,cut.log'', progs := ''empty'', one_shot := True\<rparr>"
        example_world "[]" example_Compile "[''a.log'', ''cut.log'']"]
  by (simp add: example_flags_def example_world_def OneShot_def OneShot_loop_step
      OneShot_loop_stop)

text \<open>
  Claim C7 as stated fails: with an empty program directory and a log file to tail,
  \<open>main\<close> loads no program and goes on to tail the log file with an empty engine.
\<close>

theorem tails_with_empty_program_set:
  "main (example_flags\<lparr>progs := ''empty''\<rparr>) example_world example_Compile
     = ([], Tailing [] [''a.log''])"
  by (simp add: main_def example_flags_def example_world_def StartEmtail_def)

text \<open>
  Claim C5. In one-shot mode (the loop over the log files is reached), if a log file
  fails to open or its reading ends with an error, \<open>main\<close> ends with exit status 1; if
  every log file opens and is read to its end, \<open>OneShot\<close> returns no error for each of
  them.
\<close>

theorem one_shot_log_failure_is_fatal:
  assumes "progs fl \<noteq> []" and "ReadDir w (progs fl) = Inr fis"
    and "\<not> compile_only fl" and "\<not> dump_bytecode fl" and "one_shot fl"
    and "pathnames = filter (\<lambda>pathname. pathname \<noteq> []) (Split (logs fl) CHR '','')"
    and "pathnames \<noteq> []"
  shows "(list_ex (log_fails w) pathnames \<longrightarrow> exit_status (snd (main fl w C)) = Some 1) \<and>
         (\<not> list_ex (log_fails w) pathnames \<longrightarrow>
            (\<forall>pathname \<in> set pathnames. \<forall>sent. fst (OneShot w pathname sent) = None))"
proof -
  have nonempty: "logs fl \<noteq> []"
    using assms(6,7) by auto
  obtain err ls where all: "OneShot_all w pathnames [] = (err, ls)"
    by (cases "OneShot_all w pathnames []")
  have err: "err = None \<longleftrightarrow> \<not> list_ex (log_fails w) pathnames"
    using OneShot_all_error [of w pathnames "[]"] all by simp
  have "list_ex (log_fails w) pathnames \<Longrightarrow> exit_status (snd (main fl w C)) = Some 1"
  proof -
    assume "list_ex (log_fails w) pathnames"
    then obtain p e where "err = Some (p, e)"
      using err by (cases err) auto
    then have "snd (main fl w C) = Fatal (FailedOneShot p e)"
      using assms nonempty all by (simp add: main_def Let_def)
    then show ?thesis
      by simp
  qed
  moreover have "\<not> list_ex (log_fails w) pathnames \<Longrightarrow>
      \<forall>pathname \<in> set pathnames. \<forall>sent. fst (OneShot w pathname sent) = None"
    by (simp add: OneShot_error list_ex_iff)
  ultimately show ?thesis
    by blast
qed

theorem one_shot_log_failure_is_fatal_witness:
  "exit_status (snd (main (example_flags\<lparr>logs := ''a.log,broken.log'', one_shot := True\<rparr>)
                       example_world example_Compile)) = Some 1 \<and>
   exit_status (snd (main (example_flags\<lparr>logs := ''a.log,missing.log'', one_shot := True\<rparr>)
                       example_world example_Compile)) = Some 1 \<and>
   fst (OneShot example_world ''a.log'' []) = None \<and>
   fst (OneShot example_world ''cut.log'' []) = None"
  using one_shot_log_failure_is_fatal
      [of "example_flags\<lparr>logs := ''a.log,broken.log'', one_shot := True\<rparr>" example_world _
          "[''a.log'', ''broken.log'']" example_Compile]
    one_shot_log_failure_is_fatal
      [of "example_flags\<lparr>logs := ''a.log,missing.log'', one_shot := True\<rparr>" example_world _
          "[''a.log'', ''missing.log'']" example_Compile]
    one_shot_log_failure_is_fatal
      [of "example_flags\<lparr>logs := ''a.log,cut.log'', one_shot := True\<rparr>" example_world _
          "[''a.log'', ''cut.log'']" example_Compile]
  by (simp add: example_flags_def example_world_def log_fails_def)

section \<open>Properties of console.Write\<close>

declare Write_loop.simps [simp del]
declare decode_runes.simps [simp del]

lemma tail_mod:
  fixes y :: nat
  assumes "0x80 \<le> y" "y \<le> 0xBF"
  shows "y mod 64 = y - 128"
proof -
  have "y = (y - 128) + 2 * 64" using assms by simp
  then have "y mod 64 = (y - 128) mod 64"
    by (metis mod_mult_self1)
  also have "\<dots> = y - 128" using assms by simp
  finally show ?thesis .
qed

lemma lead2_mod:
  fixes x :: nat
  assumes "0xC0 \<le> x" "x \<le> 0xDF"
  shows "x mod 32 = x - 192"
proof -
  have "x = (x - 192) + 6 * 32" using assms by simp
  then have "x mod 32 = (x - 192) mod 32"
    by (metis mod_mult_self1)
  also have "\<dots> = x - 192" using assms by simp
  finally show ?thesis .
qed

lemma lead3_mod:
  fixes x :: nat
  assumes "0xE0 \<le> x" "x \<le> 0xEF"
  shows "x mod 16 = x - 224"
proof -
  have "x = (x - 224) + 14 * 16" using assms by simp
  then have "x mod 16 = (x - 224) mod 16"
    by (metis mod_mult_self1)
  also have "\<dots> = x - 224" using assms by simp
  finally show ?thesis .
qed

lemma lead4_mod:
  fixes x :: nat
  assumes "0xF0 \<le> x" "x \<le> 0xF7"
  shows "x mod 8 = x - 240"
proof -
  have "x = (x - 240) + 30 * 8" using assms by simp
  then have "x mod 8 = (x - 240) mod 8"
    by (metis mod_mult_self1)
  also have "\<dots> = x - 240" using assms by simp
  finally show ?thesis .
qed

lemma mod64_3:
  fixes a b c :: nat
  assumes "c < 64"
  shows "(a * 4096 + b * 64 + c) mod 64 = c"
proof -
  have e: "a * 4096 + b * 64 + c = c + (a * 64 + b) * 64"
    by simp
  show ?thesis
    unfolding e using assms by (simp only: mod_mult_self1 mod_less)
qed

lemma enc2:
  fixes x y :: nat
  assumes "0xC2 \<le> x" "x \<le> 0xDF" "0x80 \<le> y" "y \<le> 0xBF"
  defines "r \<equiv> (x mod 32) * 64 + y mod 64"
  shows "\<not> r \<le> 0x7F" and "r \<le> 0x7FF" and "0xC0 + r div 64 = x" and "0x80 + r mod 64 = y"
proof -
  define a b where "a = x - 192" and "b = y - 128"
  have r: "r = a * 64 + b"
    using assms(1-4) by (simp add: r_def a_def b_def lead2_mod tail_mod)
  have bnd: "2 \<le> a" "a < 32" "b < 64"
    using assms(1-4) by (simp_all add: a_def b_def)
  have x: "x = 192 + a" and y: "y = 128 + b"
    using assms(1-4) by (simp_all add: a_def b_def)
  show "\<not> r \<le> 0x7F" using bnd by (simp add: r)
  show "r \<le> 0x7FF" using bnd by (simp add: r)
  show "0xC0 + r div 64 = x" using bnd by (simp add: r x)
  show "0x80 + r mod 64 = y" using bnd by (simp add: r y)
qed

lemma enc3:
  fixes x y z :: nat
  assumes "0xE0 \<le> x" "x \<le> 0xEF" "0x80 \<le> y" "y \<le> 0xBF" "0x80 \<le> z" "z \<le> 0xBF"
    and "x = 0xE0 \<longrightarrow> 0xA0 \<le> y" and "x = 0xED \<longrightarrow> y \<le> 0x9F"
  defines "r \<equiv> (x mod 16) * 4096 + (y mod 64) * 64 + z mod 64"
  shows "\<not> r \<le> 0x7FF" and "\<not> (0xD800 \<le> r \<and> r \<le> 0xDFFF)" and "r \<le> 0xFFFF"
    and "0xE0 + r div 4096 = x" and "0x80 + (r div 64) mod 64 = y" and "0x80 + r mod 64 = z"
proof -
  define a b c where "a = x - 224" and "b = y - 128" and "c = z - 128"
  have r: "r = a * 4096 + b * 64 + c"
    using assms(1-6) by (simp add: r_def a_def b_def c_def lead3_mod tail_mod)
  have bnd: "a < 16" "b < 64" "c < 64"
    using assms(1-6) by (simp_all add: a_def b_def c_def)
  have x: "x = 224 + a" and y: "y = 128 + b" and z: "z = 128 + c"
    using assms(1-6) by (simp_all add: a_def b_def c_def)
  have a0: "a = 0 \<longrightarrow> 32 \<le> b" using assms(7) x y by simp
  have a13: "a = 13 \<longrightarrow> b \<le> 31" using assms(8) x y by simp
  show "\<not> r \<le> 0x7FF" using a0 bnd by (cases "a = 0") (simp_all add: r)
  show "\<not> (0xD800 \<le> r \<and> r \<le> 0xDFFF)"
  proof (cases "a = 13")
    case True
    then show ?thesis using a13 bnd by (simp add: r)
  next
    case False
    then have "a \<le> 12 \<or> 14 \<le> a" by arith
    then show ?thesis using bnd by (auto simp: r)
  qed
  show "r \<le> 0xFFFF" using bnd by (simp add: r)
  have d1: "r div 4096 = a"
  proof -
    have "b * 64 + c < 4096" using bnd by simp
    then show ?thesis by (simp add: r add.assoc)
  qed
  show "0xE0 + r div 4096 = x" by (simp add: d1 x)
  have d2: "r div 64 = a * 64 + b"
    using bnd by (simp add: r)
  show "0x80 + (r div 64) mod 64 = y" using bnd by (simp add: d2 y)
  show "0x80 + r mod 64 = z" using bnd by (simp only: r z mod64_3)
qed


lemma enc4:
  fixes x y z t :: nat
  assumes "0xF0 \<le> x" "x \<le> 0xF4" "0x80 \<le> y" "y \<le> 0xBF" "0x80 \<le> z" "z \<le> 0xBF"
    and "0x80 \<le> t" "t \<le> 0xBF"
    and "x = 0xF0 \<longrightarrow> 0x90 \<le> y" and "x = 0xF4 \<longrightarrow> y \<le> 0x8F"
  defines "r \<equiv> (x mod 8) * 262144 + (y mod 64) * 4096 + (z mod 64) * 64 + t mod 64"
  shows "\<not> r \<le> 0xFFFF" and "\<not> r > 0x10FFFF"
    and "0xF0 + r div 262144 = x" and "0x80 + (r div 4096) mod 64 = y"
    and "0x80 + (r div 64) mod 64 = z" and "0x80 + r mod 64 = t"
proof -
  define a b c d where "a = x - 240" and "b = y - 128" and "c = z - 128" and "d = t - 128"
  have r: "r = a * 262144 + b * 4096 + c * 64 + d"
    using assms(1-8) by (simp add: r_def a_def b_def c_def d_def lead4_mod tail_mod)
  have bnd: "a \<le> 4" "b < 64" "c < 64" "d < 64"
    using assms(1-8) by (simp_all add: a_def b_def c_def d_def)
  have x: "x = 240 + a" and y: "y = 128 + b" and z: "z = 128 + c" and t: "t = 128 + d"
    using assms(1-8) by (simp_all add: a_def b_def c_def d_def)
  have a0: "a = 0 \<longrightarrow> 16 \<le> b" using assms(9) x y by simp
  have a4: "a = 4 \<longrightarrow> b \<le> 15" using assms(10) x y by simp
  show "\<not> r \<le> 0xFFFF" using a0 bnd by (cases "a = 0") (simp_all add: r)
  show "\<not> r > 0x10FFFF"
  proof (cases "a = 4")
    case True
    then show ?thesis using a4 bnd by (simp add: r)
  next
    case False
    then have "a \<le> 3" using bnd by simp
    then show ?thesis using bnd by (simp add: r)
  qed
  have d1: "r div 262144 = a"
  proof -
    have "b * 4096 + c * 64 + d < 262144" using bnd by simp
    then show ?thesis by (simp add: r add.assoc)
  qed
  show "0xF0 + r div 262144 = x" by (simp add: d1 x)
  have d2: "r div 4096 = a * 64 + b"
  proof -
    have "c * 64 + d < 4096" using bnd by simp
    moreover have "r = (a * 64 + b) * 4096 + (c * 64 + d)" by (simp add: r)
    ultimately show ?thesis by simp
  qed
  show "0x80 + (r div 4096) mod 64 = y" using bnd by (simp add: d2 y)
  have d3: "r div 64 = (a * 4096 + b * 64 + c)"
    using bnd by (simp add: r)
  show "0x80 + (r div 64) mod 64 = z" using bnd by (simp only: d3 z mod64_3)
  have e: "r = d + (a * 4096 + b * 64 + c) * 64"
    by (simp add: r)
  have "r mod 64 = d"
    unfolding e using bnd by (simp only: mod_mult_self1 mod_less)
  then show "0x80 + r mod 64 = t" by (simp only: t)
qed


lemma first3:
  assumes "0xE0 \<le> x" "x \<le> 0xEF"
  shows "first x = Some (3, if x = 0xE0 then 0xA0 else 0x80, if x = 0xED then 0x9F else 0xBF)"
  using assms by (auto simp: first_def)

lemma first4:
  assumes "0xF0 \<le> x" "x \<le> 0xF4"
  shows "first x = Some (4, if x = 0xF0 then 0x90 else 0x80, if x = 0xF4 then 0x8F else 0xBF)"
  using assms by (auto simp: first_def)

lemma decode1:
  assumes "(of_char b0 :: nat) \<le> 0x7F"
  shows "DecodeRune (b0 # bs) = (of_char b0, 1)" and "EncodeRune (of_char b0) = [b0]"
  using assms by (simp_all add: DecodeRune_def EncodeRune_def)

lemma decode2:
  assumes "in_range 0xC2 0xDF b0" and "tail_byte b1"
  shows "EncodeRune (fst (DecodeRune (b0 # b1 # bs))) = [b0, b1]"
    and "snd (DecodeRune (b0 # b1 # bs)) = 2"
proof -
  let ?x = "of_char b0 :: nat" and ?y = "of_char b1 :: nat"
  have xy: "0xC2 \<le> ?x" "?x \<le> 0xDF" "0x80 \<le> ?y" "?y \<le> 0xBF"
    using assms by (simp_all add: in_range_def tail_byte_def in_range_def)
  have d: "DecodeRune (b0 # b1 # bs) = ((?x mod 32) * 64 + ?y mod 64, 2)"
    using xy by (simp add: DecodeRune_def first_def)
  show "snd (DecodeRune (b0 # b1 # bs)) = 2"
    by (simp add: d)
  define r where "r = (?x mod 32) * 64 + ?y mod 64"
  note e = enc2 [OF xy, folded r_def]
  have "EncodeRune r = [char_of (0xC0 + r div 64), char_of (0x80 + r mod 64)]"
    using e(1,2) by (simp add: EncodeRune_def)
  also have "\<dots> = [char_of ?x, char_of ?y]"
    by (simp only: e(3,4))
  finally show "EncodeRune (fst (DecodeRune (b0 # b1 # bs))) = [b0, b1]"
    by (simp add: d r_def)
qed

lemma decode3:
  assumes "in_range 0xE0 0xEF b0"
    and "if (of_char b0 :: nat) = 0xE0 then in_range 0xA0 0xBF b1
         else if (of_char b0 :: nat) = 0xED then in_range 0x80 0x9F b1
         else tail_byte b1"
    and "tail_byte b2"
  shows "EncodeRune (fst (DecodeRune (b0 # b1 # b2 # bs))) = [b0, b1, b2]"
    and "snd (DecodeRune (b0 # b1 # b2 # bs)) = 3"
proof -
  let ?x = "of_char b0 :: nat" and ?y = "of_char b1 :: nat" and ?z = "of_char b2 :: nat"
  have x: "0xE0 \<le> ?x" "?x \<le> 0xEF"
    using assms(1) by (simp_all add: in_range_def)
  have y: "0x80 \<le> ?y" "?y \<le> 0xBF" "?x = 0xE0 \<longrightarrow> 0xA0 \<le> ?y" "?x = 0xED \<longrightarrow> ?y \<le> 0x9F"
    using assms(2) by (auto simp: in_range_def tail_byte_def in_range_def split: if_splits)
  have z: "0x80 \<le> ?z" "?z \<le> 0xBF"
    using assms(3) by (simp_all add: tail_byte_def in_range_def)
  have d: "DecodeRune (b0 # b1 # b2 # bs) = ((?x mod 16) * 4096 + (?y mod 64) * 64 + ?z mod 64, 3)"
    using x y z by (auto simp: DecodeRune_def first3 [OF x] Let_def)
  show "snd (DecodeRune (b0 # b1 # b2 # bs)) = 3"
    by (simp add: d)
  define r where "r = (?x mod 16) * 4096 + (?y mod 64) * 64 + ?z mod 64"
  note e = enc3 [OF x y(1,2) z y(3,4), folded r_def]
  have "EncodeRune r =
        [char_of (0xE0 + r div 4096), char_of (0x80 + (r div 64) mod 64), char_of (0x80 + r mod 64)]"
    using e(1,2,3) by (auto simp: EncodeRune_def)
  also have "\<dots> = [char_of ?x, char_of ?y, char_of ?z]"
    by (simp only: e(4,5,6))
  finally show "EncodeRune (fst (DecodeRune (b0 # b1 # b2 # bs))) = [b0, b1, b2]"
    by (simp add: d r_def)
qed

lemma decode4:
  assumes "in_range 0xF0 0xF4 b0"
    and "if (of_char b0 :: nat) = 0xF0 then in_range 0x90 0xBF b1
         else if (of_char b0 :: nat) = 0xF4 then in_range 0x80 0x8F b1
         else tail_byte b1"
    and "tail_byte b2" and "tail_byte b3"
  shows "EncodeRune (fst (DecodeRune (b0 # b1 # b2 # b3 # bs))) = [b0, b1, b2, b3]"
    and "snd (DecodeRune (b0 # b1 # b2 # b3 # bs)) = 4"
proof -
  let ?x = "of_char b0 :: nat" and ?y = "of_char b1 :: nat"
  let ?z = "of_char b2 :: nat" and ?t = "of_char b3 :: nat"
  have x: "0xF0 \<le> ?x" "?x \<le> 0xF4"
    using assms(1) by (simp_all add: in_range_def)
  have y: "0x80 \<le> ?y" "?y \<le> 0xBF" "?x = 0xF0 \<longrightarrow> 0x90 \<le> ?y" "?x = 0xF4 \<longrightarrow> ?y \<le> 0x8F"
    using assms(2) by (auto simp: in_range_def tail_byte_def in_range_def split: if_splits)
  have z: "0x80 \<le> ?z" "?z \<le> 0xBF"
    using assms(3) by (simp_all add: tail_byte_def in_range_def)
  have t: "0x80 \<le> ?t" "?t \<le> 0xBF"
    using assms(4) by (simp_all add: tail_byte_def in_range_def)
  have d: "DecodeRune (b0 # b1 # b2 # b3 # bs) =
           ((?x mod 8) * 262144 + (?y mod 64) * 4096 + (?z mod 64) * 64 + ?t mod 64, 4)"
    using x y z t by (auto simp: DecodeRune_def first4 [OF x] Let_def)
  show "snd (DecodeRune (b0 # b1 # b2 # b3 # bs)) = 4"
    by (simp add: d)
  define r where "r = (?x mod 8) * 262144 + (?y mod 64) * 4096 + (?z mod 64) * 64 + ?t mod 64"
  note e = enc4 [OF x y(1,2) z t y(3,4), folded r_def]
  have "EncodeRune r =
        [char_of (0xF0 + r div 262144), char_of (0x80 + (r div 4096) mod 64),
         char_of (0x80 + (r div 64) mod 64), char_of (0x80 + r mod 64)]"
    using e(1,2) by (simp add: EncodeRune_def)
  also have "\<dots> = [char_of ?x, char_of ?y, char_of ?z, char_of ?t]"
    by (simp only: e(3,4,5,6))
  finally show "EncodeRune (fst (DecodeRune (b0 # b1 # b2 # b3 # bs))) = [b0, b1, b2, b3]"
    by (simp add: d r_def)
qed

lemma Valid_head:
  assumes "Valid (b0 # bs)"
  shows "EncodeRune (fst (DecodeRune (b0 # bs))) = take (snd (DecodeRune (b0 # bs))) (b0 # bs) \<and>
         Valid (drop (snd (DecodeRune (b0 # bs))) (b0 # bs))"
proof -
  consider (one) "(of_char b0 :: nat) \<le> 0x7F"
    | (two) "\<not> (of_char b0 :: nat) \<le> 0x7F" "in_range 0xC2 0xDF b0"
    | (three) "\<not> (of_char b0 :: nat) \<le> 0x7F" "\<not> in_range 0xC2 0xDF b0" "in_range 0xE0 0xEF b0"
    | (four) "\<not> (of_char b0 :: nat) \<le> 0x7F" "\<not> in_range 0xC2 0xDF b0" "\<not> in_range 0xE0 0xEF b0"
        "in_range 0xF0 0xF4 b0"
    using assms by (auto split: if_splits)
  then show ?thesis
  proof cases
    case one
    then show ?thesis
      using assms by (simp add: decode1)
  next
    case two
    then obtain b1 rest where "bs = b1 # rest" "tail_byte b1" "Valid rest"
      using assms by (auto split: list.splits)
    then show ?thesis
      using decode2 [OF two(2), of b1 rest] by simp
  next
    case three
    then obtain b1 b2 rest where bs: "bs = b1 # b2 # rest"
      and v: "if (of_char b0 :: nat) = 0xE0 then in_range 0xA0 0xBF b1
         else if (of_char b0 :: nat) = 0xED then in_range 0x80 0x9F b1
         else tail_byte b1" "tail_byte b2" "Valid rest"
      using assms by (auto split: list.splits)
    show ?thesis
      using decode3 [OF three(3) v(1,2), of rest] v(3) by (simp add: bs)
  next
    case four
    then obtain b1 b2 b3 rest where bs: "bs = b1 # b2 # b3 # rest"
      and v: "if (of_char b0 :: nat) = 0xF0 then in_range 0x90 0xBF b1
         else if (of_char b0 :: nat) = 0xF4 then in_range 0x80 0x8F b1
         else tail_byte b1" "tail_byte b2" "tail_byte b3" "Valid rest"
      using assms by (auto split: list.splits)
    show ?thesis
      using decode4 [OF four(4) v(1,2,3), of rest] v(4) by (simp add: bs)
  qed
qed

lemma Write_loop_Valid:
  "Valid (drop i p) \<Longrightarrow> Write_loop p i s = s @ drop i p"
proof (induction p i s rule: Write_loop.induct)
  case (1 p i s)
  show ?case
  proof (cases "i < length p")
    case False
    then show ?thesis
      by (subst Write_loop.simps) simp
  next
    case True
    obtain r width where d: "DecodeRune (drop i p) = (r, width)"
      by (cases "DecodeRune (drop i p)")
    obtain b0 bs where c: "drop i p = b0 # bs"
      using True by (cases "drop i p") auto
    have h: "EncodeRune r = take width (drop i p)" "Valid (drop width (drop i p))"
      using Valid_head [of b0 bs] "1.prems" d by (simp_all add: c)
    have dd: "drop (i + width) p = drop width (drop i p)"
      by (simp add: add.commute)
    have "Valid (drop (i + width) p)"
      using h(2) by (simp only: dd)
    then have "Write_loop p (i + width) (s @ EncodeRune r) = (s @ EncodeRune r) @ drop (i + width) p"
      by (rule "1.IH" [OF True d [symmetric]])
    also have "\<dots> = s @ take width (drop i p) @ drop width (drop i p)"
      by (simp only: h(1) dd append_assoc)
    also have "\<dots> = s @ drop i p"
      by (simp only: append_take_drop_id)
    finally show ?thesis
      using True d by (subst Write_loop.simps) simp
  qed
qed


lemma Write_loop_decode_runes:
  "Write_loop p i s = s @ string_of_runes (decode_runes (drop i p))"
proof (induction p i s rule: Write_loop.induct)
  case (1 p i s)
  show ?case
  proof (cases "i < length p")
    case False
    then show ?thesis
      by (subst Write_loop.simps, subst decode_runes.simps) (simp add: string_of_runes_def)
  next
    case True
    obtain r width where d: "DecodeRune (drop i p) = (r, width)"
      by (cases "DecodeRune (drop i p)")
    have dd: "drop (i + width) p = drop width (drop i p)"
      by (simp add: add.commute)
    have "decode_runes (drop i p) = r # decode_runes (drop width (drop i p))"
      using True d by (subst decode_runes.simps) simp
    then have "s @ string_of_runes (decode_runes (drop i p)) =
               (s @ EncodeRune r) @ string_of_runes (decode_runes (drop (i + width) p))"
      by (simp only: dd) (simp add: string_of_runes_def)
    also have "\<dots> = Write_loop p (i + width) (s @ EncodeRune r)"
      by (rule "1.IH" [OF True d [symmetric], symmetric])
    finally show ?thesis
      using True d by (subst Write_loop.simps) simp
  qed
qed

text \<open>
  Claim C10. \<open>Write\<close> appends one string to the lines of the console, the string of the
  runes decoded from its input one after the other, and returns the length in bytes of
  that string and no error. For an input that is valid UTF-8 the string is the input
  and the count is the length of the input.
\<close>

theorem console_Write_appends_decoding:
  "Write c p =
     ((length (string_of_runes (decode_runes p)), None),
      c\<lparr>lines := lines c @ [string_of_runes (decode_runes p)]\<rparr>) \<and>
   (Valid p \<longrightarrow> Write c p = ((length p, None), c\<lparr>lines := lines c @ [p]\<rparr>))"
  using Write_loop_decode_runes [of p 0 "[]"] Write_loop_Valid [of 0 p "[]"]
  by (simp add: Write_def Let_def)

theorem console_Write_appends_decoding_witness:
  "Valid [CHR ''a'', CHR 0xC3, CHR 0xA9, CHR 0xE2, CHR 0x82, CHR 0xAC] \<and>
   Write \<lparr>lines = [''x'']\<rparr> [CHR ''a'', CHR 0xC3, CHR 0xA9, CHR 0xE2, CHR 0x82, CHR 0xAC]
     = ((6, None), \<lparr>lines = [''x'', [CHR ''a'', CHR 0xC3, CHR 0xA9, CHR 0xE2, CHR 0x82, CHR 0xAC]]\<rparr>)"
  using console_Write_appends_decoding
    [of "\<lparr>lines = [''x'']\<rparr>" "[CHR ''a'', CHR 0xC3, CHR 0xA9, CHR 0xE2, CHR 0x82, CHR 0xAC]",
     THEN conjunct2]
  by (simp add: in_range_def tail_byte_def)

section \<open>Properties of the modelled compiler and virtual machine\<close>

lemma compile_counter_program:
  assumes "recompile src = Some r"
  shows "compile recompile pn
           \<lparr>decls = [(Counter, c, [])], clauses = [(src, [Increment c [] None])]\<rparr> [] =
         Inr (\<lparr>name = pn,
                prog = [Instr Match 0, Instr JumpIfNoMatch 3, Instr IncrementMetric 0,
                        Instr Return 0],
                re = [r]\<rparr>,
              [\<lparr>Program = pn, metric_name = c, Kind = Counter, Keys = [], Values = Map.empty\<rparr>])"
  using assms by (simp add: compile_def)

lemma execute_counter_program_match:
  assumes "rematch r line = Some groups" and "ms \<noteq> []" and "Keys (ms ! 0) = []"
  shows "execute rematch
           \<lparr>name = pn,
            prog = [Instr Match 0, Instr JumpIfNoMatch 3, Instr IncrementMetric 0, Instr Return 0],
            re = [r]\<rparr> line ms =
         Some (Inr True,
               ms[0 := (ms ! 0)\<lparr>Values := (Values (ms ! 0))([] \<mapsto> value_of (ms ! 0) [] + 1)\<rparr>])"
  using assms
  by (simp add: execute_def run_thread.simps exec_instr_def increment_def Let_def)

lemma execute_counter_program_no_match:
  assumes "rematch r line = None"
  shows "execute rematch
           \<lparr>name = pn,
            prog = [Instr Match 0, Instr JumpIfNoMatch 3, Instr IncrementMetric 0, Instr Return 0],
            re = [r]\<rparr> line ms =
         Some (Inr False, ms)"
  using assms
  by (simp add: execute_def run_thread.simps exec_instr_def)

lemma run_counter_program:
  assumes "ms \<noteq> []" and "Keys (ms ! 0) = []"
  shows "\<exists>ms'. run rematch
           [(\<lparr>name = pn,
              prog = [Instr Match 0, Instr JumpIfNoMatch 3, Instr IncrementMetric 0, Instr Return 0],
              re = [r]\<rparr>, False)] ls ms =
           Some ([(\<lparr>name = pn,
              prog = [Instr Match 0, Instr JumpIfNoMatch 3, Instr IncrementMetric 0, Instr Return 0],
              re = [r]\<rparr>, False)], ms') \<and>
           ms' \<noteq> [] \<and> Program (ms' ! 0) = Program (ms ! 0) \<and>
           metric_name (ms' ! 0) = metric_name (ms ! 0) \<and>
           value_of (ms' ! 0) [] =
             value_of (ms ! 0) [] + int (length (filter (\<lambda>line. rematch r line \<noteq> None) ls))"
  using assms
proof (induction ls arbitrary: ms)
  case Nil
  then show ?case by simp
next
  case (Cons line ls)
  let ?v = "\<lparr>name = pn,
              prog = [Instr Match 0, Instr JumpIfNoMatch 3, Instr IncrementMetric 0, Instr Return 0],
              re = [r]\<rparr>"
  show ?case
  proof (cases "rematch r line")
    case None
    then have l: "run_line rematch [(?v, False)] line ms = Some ([(?v, False)], ms)"
      by (simp add: execute_counter_program_no_match)
    from Cons.IH [OF Cons.prems] show ?thesis
      using l None by simp
  next
    case (Some groups)
    let ?ms = "ms[0 := (ms ! 0)\<lparr>Values := (Values (ms ! 0))([] \<mapsto> value_of (ms ! 0) [] + 1)\<rparr>]"
    have e: "execute rematch ?v line ms = Some (Inr True, ?ms)"
      using Some Cons.prems by (rule execute_counter_program_match)
    have l: "run_line rematch [(?v, False)] line ms = Some ([(?v, False)], ?ms)"
      by (simp add: e)
    have ne: "?ms \<noteq> []" and k: "Keys (?ms ! 0) = []"
      using Cons.prems by simp_all
    have v: "value_of (?ms ! 0) [] = value_of (ms ! 0) [] + 1"
      "Program (?ms ! 0) = Program (ms ! 0)" "metric_name (?ms ! 0) = metric_name (ms ! 0)"
      using Cons.prems(1) by (simp_all add: value_of_def)
    from Cons.IH [OF ne k] show ?thesis
      using l v Some by auto
  qed
qed

lemma counter_program_final_value:
  assumes "recompile src = Some r"
  shows "final_value rematch recompile pn
           \<lparr>decls = [(Counter, c, [])], clauses = [(src, [Increment c [] None])]\<rparr> ls c
         = Some (int (length (filter (\<lambda>line. rematch r line \<noteq> None) ls)))"
proof -
  let ?m = "\<lparr>Program = pn, metric_name = c, Kind = Counter, Keys = [], Values = Map.empty\<rparr>"
  let ?v = "\<lparr>name = pn,
           prog = [Instr Match 0, Instr JumpIfNoMatch 3, Instr IncrementMetric 0, Instr Return 0],
           re = [r]\<rparr>"
  obtain ms' where r: "run rematch [(?v, False)] ls [?m] = Some ([(?v, False)], ms')"
    and s: "ms' \<noteq> []" "Program (ms' ! 0) = pn" "metric_name (ms' ! 0) = c"
    and v: "value_of (ms' ! 0) [] = int (length (filter (\<lambda>line. rematch r line \<noteq> None) ls))"
    using run_counter_program [of "[?m]" rematch pn r ls] by (auto simp: value_of_def)
  obtain m rest where ms': "ms' = m # rest"
    using s(1) by (cases ms') auto
  have "stored_value ms' pn c [] = Some (value_of (ms' ! 0) [])"
    using s(2,3) by (simp add: stored_value_def ms')
  then show ?thesis
    using compile_counter_program [of recompile src r pn c] assms r v
    by (simp add: final_value_def run_program_def)
qed

text \<open>
  Claim C1, as amended. Take a program with one counter declaration without label
  dimensions and one pattern clause whose block is one increment of that counter
  without a delta, whose regular expression compiles. Loaded into an empty store and run
  over any lines and then over \<open>N\<close> lines that each match the pattern, it leaves the
  counter with the value it had after the earlier lines increased by exactly \<open>N\<close>.
\<close>

theorem counter_increased_by_number_of_matching_lines:
  assumes "recompile src = Some r" and "list_all (\<lambda>line. rematch r line \<noteq> None) ls"
  shows "\<exists>n. final_value rematch recompile pn
                 \<lparr>decls = [(Counter, c, [])], clauses = [(src, [Increment c [] None])]\<rparr>
                 earlier c = Some n \<and>
              final_value rematch recompile pn
                 \<lparr>decls = [(Counter, c, [])], clauses = [(src, [Increment c [] None])]\<rparr>
                 (earlier @ ls) c = Some (n + int (length ls))"
proof -
  have "filter (\<lambda>line. rematch r line \<noteq> None) ls = ls"
    using assms(2) by (simp add: list_all_iff)
  then show ?thesis
    using counter_program_final_value [of recompile src r rematch pn c] assms(1)
    by simp
qed

theorem counter_increased_by_number_of_matching_lines_witness:
  "final_value example_match Some ''p''
     \<lparr>decls = [(Counter, ''c'', [])], clauses = [(''x'', [Increment ''c'' [] None])]\<rparr>
     [''x'', ''y'', ''x'', ''x''] ''c'' = Some 3"
  using counter_increased_by_number_of_matching_lines
    [of Some "''x''" "''x''" example_match "[''x'', ''x'']" "''p''" "''c''" "[''x'', ''y'']"]
  by (simp add: final_value_def run_program_def compile_def execute_def run_thread.simps
      exec_instr_def increment_def value_of_def stored_value_def example_match_def)

text \<open>
  Claim C1 as stated fails: a program with one counter declaration without label
  dimensions and one pattern clause whose block increments the counter twice, run over
  one matching line, leaves the counter at 2.
\<close>

theorem two_increments_count_twice:
  "final_value example_match Some ''p''
     \<lparr>decls = [(Counter, ''c'', [])],
      clauses = [(''x'', [Increment ''c'' [] None, Increment ''c'' [] None])]\<rparr>
     [''x''] ''c'' = Some 2"
  by (simp add: final_value_def run_program_def compile_def execute_def run_thread.simps
      exec_instr_def increment_def value_of_def stored_value_def example_match_def)

end
